theory Spec2Isabelle
  imports Main "HOL-Library.Sublist" "HOL-Library.Multiset"
begin

section \<open>Data model of \<^verbatim>\<open>clay/ui/urwid/songlist.py\<close>\<close>

text \<open>
  Python objects are mutable and shared: the same \<^verbatim>\<open>SongListItem\<close> object sits in
  \<^verbatim>\<open>walker\<close> and in \<^verbatim>\<open>tracks_walker\<close>. Objects are therefore addresses (\<open>nat\<close>) into
  a store, and the two walkers are lists of addresses. \<^verbatim>\<open>Track\<close> objects are addresses
  into a second store, which this module only reads.
\<close>

datatype States = idle | loading | playing | paused

text \<open>
  Strings are lists of characters, a \<open>char\<close> standing for one character of the Python
  string.

  The fields of a \<^verbatim>\<open>Track\<close> that this module reads. \<open>Track_id\<close> is the identity of the
  object that the attribute \<^verbatim>\<open>track.id\<close> evaluates to: the source compares ids with
  \<^verbatim>\<open>is\<close>, which compares identities.
\<close>

record Track =
  Track_id :: nat
  Track_title :: string
  Track_artist :: string
  Track_rating :: nat
  Track_explicit_rating :: nat

record SongListItem =
  track :: nat
  rating :: string
  explicit :: string
  index :: nat
  state :: States
  is_focused :: bool

text \<open>An entry of a walker: a \<^verbatim>\<open>SongListItem\<close> object or a \<^verbatim>\<open>urwid.Text\<close> placeholder.\<close>

datatype widget = SongItem nat | Text string

datatype signal =
    Sig_activate | Sig_play | Sig_append_requested | Sig_unappend_requested
  | Sig_clear_queue | Sig_station_requested | Sig_context_menu_requested

datatype cancel_action = Cancel_end_filtering | Cancel_popup_close

text \<open>
  Calls into the collaborators that are not part of this module (the player, the
  walker's focus, the application, the notification area), in the order they are made.
\<close>

datatype call =
    Player_play_pause
  | Player_goto_track nat
  | Player_append_to_queue nat
  | Player_remove_from_queue nat
  | Player_load_queue "nat list" nat
  | Player_clear_queue
  | Player_create_station_from_track nat
  | Walker_set_focus nat
  | App_append_cancel_action cancel_action
  | App_unregister_cancel_action cancel_action
  | Notify string

datatype error = AttributeError

text \<open>
  The \<^verbatim>\<open>SongListBox\<close> together with what it reads from its collaborators:
  \<open>filtering\<close> is \<^verbatim>\<open>hotkey_manager.filtering\<close>, \<open>page_slug\<close> and \<open>page_append\<close> are
  \<^verbatim>\<open>app.current_page.slug\<close> and \<^verbatim>\<open>.append\<close>, \<open>current_track\<close> is
  \<^verbatim>\<open>player.get_current_track()\<close>, \<open>Icons_ratings\<close> and \<open>Icons_explicit\<close> are the tables
  of \<^verbatim>\<open>variables.Icons\<close>. \<open>str_lower\<close> is Python's built-in \<^verbatim>\<open>str.lower\<close>: it is not
  code of this repository and is taken as given, whatever it does to each string.
\<close>

record sys =
  tracks :: "nat list"
  tracks_walker :: "widget list"
  walker :: "widget list"
  filter_query :: string
  filter_box :: string
  filter_info :: string
  filter_panel_shown :: bool
  popup :: "nat option"
  current_item :: "nat option"
  items :: "nat \<Rightarrow> SongListItem"
  next_ref :: nat
  track_heap :: "nat \<Rightarrow> Track"
  filtering :: bool
  page_slug :: string
  page_append :: bool
  current_track :: "nat option"
  Icons_ratings :: "nat \<Rightarrow> string"
  Icons_explicit :: "nat \<Rightarrow> string"
  str_lower :: "string \<Rightarrow> string"
  calls :: "call list"

definition filter_prefix :: string where
  "filter_prefix = ''> ''"

definition emit_call :: "sys \<Rightarrow> call \<Rightarrow> sys" where
  "emit_call s c = s\<lparr>calls := calls s @ [c]\<rparr>"

text \<open>
  Modelled from the spec: the class \<^verbatim>\<open>Track\<close> and its \<^verbatim>\<open>__eq__\<close> are not among the
  sources; the spec describes \<^verbatim>\<open>songitem.track == track\<close> as matching by identity.
\<close>

definition Track_eq :: "nat \<Rightarrow> nat \<Rightarrow> bool" where
  "Track_eq a b = (a = b)"

section \<open>\<^verbatim>\<open>SongListItem\<close>\<close>

text \<open>
  The two display lines are recomputed from the fields below on every
  \<^verbatim>\<open>update_text\<close>; they carry no state of their own and are not stored.
\<close>

definition new_SongListItem :: "sys \<Rightarrow> nat \<Rightarrow> SongListItem" where
  "new_SongListItem s t =
     \<lparr>track = t,
      rating = Icons_ratings s (Track_rating (track_heap s t)),
      explicit = Icons_explicit s (Track_explicit_rating (track_heap s t)),
      index = 0,
      state = idle,
      is_focused = False\<rparr>"

definition set_state :: "sys \<Rightarrow> nat \<Rightarrow> States \<Rightarrow> sys" where
  "set_state s r st = s\<lparr>items := (items s)(r := (items s r)\<lparr>state := st\<rparr>)\<rparr>"

definition set_index :: "sys \<Rightarrow> nat \<Rightarrow> nat \<Rightarrow> sys" where
  "set_index s r i = s\<lparr>items := (items s)(r := (items s r)\<lparr>index := i\<rparr>)\<rparr>"

definition full_title :: "sys \<Rightarrow> SongListItem \<Rightarrow> string" where
  "full_title s it =
     Track_artist (track_heap s (track it)) @ '' - '' @
     Track_title (track_heap s (track it)) @ '' '' @ rating it"

definition is_currently_played :: "SongListItem \<Rightarrow> bool" where
  "is_currently_played it =
     (state it = loading \<or> state it = playing \<or> state it = paused)"

text \<open>The intent operations return the signals they emit.\<close>

definition SongListItem_activate :: "SongListItem \<Rightarrow> signal list" where
  "SongListItem_activate it = [Sig_activate]"

definition SongListItem_play :: "SongListItem \<Rightarrow> signal list" where
  "SongListItem_play it = [Sig_play]"

definition SongListItem_append :: "SongListItem \<Rightarrow> signal list" where
  "SongListItem_append it = [Sig_append_requested]"

definition unappend :: "SongListItem \<Rightarrow> signal list" where
  "unappend it = (if \<not> is_currently_played it then [Sig_unappend_requested] else [])"

definition request_station :: "SongListItem \<Rightarrow> signal list" where
  "request_station it = [Sig_station_requested]"

definition show_context_menu :: "SongListItem \<Rightarrow> signal list" where
  "show_context_menu it = [Sig_context_menu_requested]"

section \<open>\<^verbatim>\<open>SongListBoxPopup\<close>: completion callbacks\<close>

text \<open>
  \<open>result\<close> is the truth value of the callback's first argument; \<open>error\<close> is \<open>None\<close>
  or an exception object, which is truthy, given by its \<^verbatim>\<open>str()\<close> text. The result is
  the list of texts passed to \<^verbatim>\<open>notification_area.notify\<close>.
\<close>

definition on_add_to_my_library :: "bool \<Rightarrow> string option \<Rightarrow> string list" where
  "on_add_to_my_library result err =
     (if err \<noteq> None \<or> \<not> result
      then [''Error while adding track to my library: '' @
              (case err of Some e \<Rightarrow> e | None \<Rightarrow> ''reason is unknown :('')]
      else [''Track added to library!''])"

definition on_remove_from_my_library :: "bool \<Rightarrow> string option \<Rightarrow> string list" where
  "on_remove_from_my_library result err =
     (if err \<noteq> None \<or> \<not> result
      then [''Error while removing track from my library: '' @
              (case err of Some e \<Rightarrow> e | None \<Rightarrow> ''reason is unknown :('')]
      else [''Track removed from library!''])"

section \<open>\<^verbatim>\<open>SongListBox\<close>: filtering\<close>

text \<open>
  \<^verbatim>\<open>a in b\<close> on strings is \<open>sublist a b\<close>; \<^verbatim>\<open>x.lower()\<close> is \<open>str_lower s x\<close>.
\<close>

fun get_filtered_items_loop :: "sys \<Rightarrow> widget list \<Rightarrow> widget list \<Rightarrow> widget list" where
  "get_filtered_items_loop s [] matches = matches"
| "get_filtered_items_loop s (Text t # ws) matches = get_filtered_items_loop s ws matches"
| "get_filtered_items_loop s (SongItem r # ws) matches =
     (if sublist (str_lower s (filter_query s)) (str_lower s (full_title s (items s r)))
      then get_filtered_items_loop s ws (matches @ [SongItem r])
      else get_filtered_items_loop s ws matches)"

definition get_filtered_items :: "sys \<Rightarrow> widget list" where
  "get_filtered_items s = get_filtered_items_loop s (tracks_walker s) []"


definition start_filtering :: "sys \<Rightarrow> sys" where
  "start_filtering s =
     (if \<not> filtering s
      then (emit_call (s\<lparr>filter_panel_shown := True\<rparr>) (App_append_cancel_action Cancel_end_filtering))
             \<lparr>filter_query := [],
              filtering := True,
              tracks_walker := walker s,
              filter_box := filter_prefix\<rparr>
      else s)"

definition end_filtering :: "sys \<Rightarrow> sys" where
  "end_filtering s =
     (if filter_box s = [] then s
      else s\<lparr>filter_panel_shown := False,
             filtering := False,
             filter_box := [],
             filter_info := [],
             walker := tracks_walker s\<rparr>)"

text \<open>
  \<^verbatim>\<open>update_indexes\<close> calls \<^verbatim>\<open>set_index\<close> on every entry of the walker; a
  \<^verbatim>\<open>urwid.Text\<close> placeholder has no such method.
\<close>

fun update_indexes_loop :: "sys \<Rightarrow> nat \<Rightarrow> widget list \<Rightarrow> error + sys" where
  "update_indexes_loop s i [] = Inr s"
| "update_indexes_loop s i (SongItem r # ws) = update_indexes_loop (set_index s r i) (Suc i) ws"
| "update_indexes_loop s i (Text t # ws) = Inl AttributeError"

definition update_indexes :: "sys \<Rightarrow> error + sys" where
  "update_indexes s = update_indexes_loop s 0 (walker s)"

text \<open>\<^verbatim>\<open>'{}'.format(n)\<close> for a length.\<close>

fun str_nat :: "nat \<Rightarrow> string" where
  "str_nat n =
     (if n < 10 then [char_of (48 + n)]
      else str_nat (n div 10) @ [char_of (48 + n mod 10)])"

definition perform_filtering :: "sys \<Rightarrow> string \<Rightarrow> error + sys" where
  "perform_filtering s c =
     (if c = ''backspace'' \<and> filter_query s = [] then Inr (end_filtering s)
      else
        let s1 = (if c = ''backspace'' then s\<lparr>filter_query := butlast (filter_query s)\<rparr>
                  else s\<lparr>filter_query := filter_query s @ c\<rparr>);
            s2 = s1\<lparr>filter_box := filter_prefix @ filter_query s1\<rparr>;
            matches = get_filtered_items s2;
            s3 = s2\<lparr>filter_info := str_nat (length matches) @ '' matches''\<rparr>;
            s4 = s3\<lparr>walker := matches\<rparr>;
            s5 = emit_call s4 (Walker_set_focus 0)
        in if page_slug s5 = ''library'' then update_indexes s5 else Inr s5)"

section \<open>\<^verbatim>\<open>SongListBox\<close>: signal handlers\<close>

definition item_play_pause :: "sys \<Rightarrow> nat \<Rightarrow> sys" where
  "item_play_pause s r =
     (if is_currently_played (items s r) then emit_call s Player_play_pause else s)"

definition item_append_requested :: "sys \<Rightarrow> nat \<Rightarrow> sys" where
  "item_append_requested s r = emit_call s (Player_append_to_queue (track (items s r)))"

definition item_unappend_requested :: "sys \<Rightarrow> nat \<Rightarrow> sys" where
  "item_unappend_requested s r = emit_call s (Player_remove_from_queue (track (items s r)))"

definition item_station_requested :: "sys \<Rightarrow> nat \<Rightarrow> sys" where
  "item_station_requested s r =
     emit_call s (Player_create_station_from_track (track (items s r)))"

definition item_activated :: "sys \<Rightarrow> nat \<Rightarrow> sys" where
  "item_activated s r =
     (let s1 = (if is_currently_played (items s r) then emit_call s Player_play_pause
                else if page_slug s = ''queue''
                  then emit_call s (Player_goto_track (track (items s r)))
                else if page_append s \<or> filtering s then item_append_requested s r
                else emit_call s (Player_load_queue (tracks s) (index (items s r))))
      in if filtering s1 \<and> page_slug s1 \<noteq> ''search''
         then s1\<lparr>walker := get_filtered_items s1\<rparr>
         else s1)"

definition context_menu_requested :: "sys \<Rightarrow> nat \<Rightarrow> sys" where
  "context_menu_requested s r =
     emit_call (s\<lparr>popup := Some r\<rparr>) (App_append_cancel_action Cancel_popup_close)"

definition clear_queue :: "sys \<Rightarrow> nat \<Rightarrow> sys" where
  "clear_queue s r =
     emit_call (emit_call (s\<lparr>current_item := None\<rparr>) (Walker_set_focus 0)) Player_clear_queue"

text \<open>
  The connections that \<^verbatim>\<open>tracks_to_songlist\<close> makes for every item it creates:
  each signal of the item calls one handler of the list box with the item.
\<close>

fun deliver :: "nat \<Rightarrow> signal \<Rightarrow> sys \<Rightarrow> sys" where
  "deliver r Sig_activate s = item_activated s r"
| "deliver r Sig_play s = item_play_pause s r"
| "deliver r Sig_append_requested s = item_append_requested s r"
| "deliver r Sig_unappend_requested s = item_unappend_requested s r"
| "deliver r Sig_clear_queue s = clear_queue s r"
| "deliver r Sig_station_requested s = item_station_requested s r"
| "deliver r Sig_context_menu_requested s = context_menu_requested s r"

definition emit_signals :: "sys \<Rightarrow> nat \<Rightarrow> signal list \<Rightarrow> sys" where
  "emit_signals s r sigs = fold (deliver r) sigs s"

section \<open>\<^verbatim>\<open>SongListBox\<close>: populating and player notifications\<close>

text \<open>
  \<^verbatim>\<open>SongListItem(track)\<close> allocates a new object at \<open>next_ref\<close>. The loop carries
  \<^verbatim>\<open>items\<close> and \<^verbatim>\<open>current_index\<close> as the source does.
\<close>

fun tracks_to_songlist_loop ::
  "sys \<Rightarrow> nat \<Rightarrow> nat list \<Rightarrow> widget list \<Rightarrow> nat option \<Rightarrow> sys \<times> widget list \<times> nat option" where
  "tracks_to_songlist_loop s i [] its current_index = (s, its, current_index)"
| "tracks_to_songlist_loop s i (t # ts) its current_index =
     (let r = next_ref s;
          s1 = s\<lparr>items := (items s)(r := new_SongListItem s t), next_ref := Suc r\<rparr>;
          hit = (case current_track s1 of None \<Rightarrow> False | Some c \<Rightarrow> Track_eq c t);
          s2 = (if hit then set_state s1 r loading else s1);
          current_index' = (if hit \<and> current_index = None then Some i else current_index)
      in tracks_to_songlist_loop s2 (Suc i) ts (its @ [SongItem r]) current_index')"

definition tracks_to_songlist :: "sys \<Rightarrow> nat list \<Rightarrow> sys \<times> widget list \<times> nat option" where
  "tracks_to_songlist s trs = tracks_to_songlist_loop s 0 trs [] None"

definition populate :: "sys \<Rightarrow> nat list \<Rightarrow> error + sys" where
  "populate s trs =
     (let s1 = s\<lparr>tracks := trs\<rparr>;
          (s2, its, current_index) = tracks_to_songlist s1 (tracks s1);
          s3 = s2\<lparr>walker := its\<rparr>
      in case update_indexes s3 of
           Inl e \<Rightarrow> Inl e
         | Inr s4 \<Rightarrow>
             (case current_index of
                Some ci \<Rightarrow> Inr (emit_call s4 (Walker_set_focus ci))
              | None \<Rightarrow>
                  if length (walker s4) \<ge> 1 then Inr (emit_call s4 (Walker_set_focus 0))
                  else Inr s4))"

text \<open>The test of \<^verbatim>\<open>track_changed\<close> on one item: \<^verbatim>\<open>==\<close> on the tracks, or, off the
  queue page, \<^verbatim>\<open>is\<close> on their ids.\<close>

definition track_matches :: "sys \<Rightarrow> SongListItem \<Rightarrow> nat \<Rightarrow> bool" where
  "track_matches s it t =
     (Track_eq (track it) t \<or>
      (page_slug s \<noteq> ''queue'' \<and>
       Track_id (track_heap s (track it)) = Track_id (track_heap s t)))"

fun track_changed_loop :: "sys \<Rightarrow> nat \<Rightarrow> nat \<Rightarrow> widget list \<Rightarrow> sys" where
  "track_changed_loop s t i [] = s"
| "track_changed_loop s t i (Text x # ws) = track_changed_loop s t (Suc i) ws"
| "track_changed_loop s t i (SongItem r # ws) =
     (if track_matches s (items s r) t
      then track_changed_loop (emit_call (set_state s r loading) (Walker_set_focus i)) t (Suc i) ws
      else if state (items s r) \<noteq> idle
        then track_changed_loop (set_state s r idle) t (Suc i) ws
      else track_changed_loop s t (Suc i) ws)"

definition track_changed :: "sys \<Rightarrow> nat \<Rightarrow> sys" where
  "track_changed s t = track_changed_loop s t 0 (walker s)"

text \<open>
  The spec's words for the matching of \<^verbatim>\<open>track_changed\<close>: by identity of the track on
  the queue page, by track-id on every other page; \<open>represents_at\<close> is the same for an
  entry of the walker, which a placeholder never satisfies.
\<close>

definition represents :: "sys \<Rightarrow> SongListItem \<Rightarrow> nat \<Rightarrow> bool" where
  "represents s it t =
     (if page_slug s = ''queue'' then track it = t
      else Track_id (track_heap s (track it)) = Track_id (track_heap s t))"

definition represents_at :: "sys \<Rightarrow> nat \<Rightarrow> widget \<Rightarrow> bool" where
  "represents_at s t w = (case w of SongItem r \<Rightarrow> represents s (items s r) t | Text x \<Rightarrow> False)"

text \<open>
  \<^verbatim>\<open>SongListBox.__init__\<close>, given what the collaborators hold. Addresses from
  \<open>next_ref\<close> on are not allocated; what the store holds there is never read.
\<close>

definition SongListBox_init ::
  "(nat \<Rightarrow> Track) \<Rightarrow> (nat \<Rightarrow> string) \<Rightarrow> (nat \<Rightarrow> string) \<Rightarrow> (string \<Rightarrow> string) \<Rightarrow>
   string \<Rightarrow> bool \<Rightarrow> nat option \<Rightarrow> sys" where
  "SongListBox_init th ratings explicits low slug app cur =
     \<lparr>tracks = [], tracks_walker = [], walker = [],
      filter_query = [], filter_box = [], filter_info = [],
      filter_panel_shown = False, popup = None, current_item = None,
      items = (\<lambda>r. \<lparr>track = 0, rating = [], explicit = [], index = 0,
                     state = idle, is_focused = False\<rparr>),
      next_ref = 0, track_heap = th, filtering = False,
      page_slug = slug, page_append = app, current_track = cur,
      Icons_ratings = ratings, Icons_explicit = explicits, str_lower = low, calls = []\<rparr>"

section \<open>\<^verbatim>\<open>pages/album.py\<close>: \<^verbatim>\<open>AlbumListBox.populate\<close>\<close>

text \<open>
  The mapping \<^verbatim>\<open>albums\<close> is its keys in insertion order (\<open>dict_keys\<close>, distinct) and the
  lookup \<^verbatim>\<open>albums[k]\<close> on those keys (\<open>dict_get\<close>).
\<close>

record ('k, 'a) dict =
  dict_keys :: "'k list"
  dict_get :: "'k \<Rightarrow> 'a"

datatype 'a AbstractListItem = AbstractListItem (item_album: 'a) (item_icon: string)

text \<open>
  Modelled from the spec: the class of the albums is not among the sources.
  \<^verbatim>\<open>sorted(albums, key=albums.__getitem__)\<close> orders the keys of the mapping by comparing
  the albums themselves, stably; the spec calls what is compared the albums' sort key,
  here \<open>album_key\<close>.
\<close>

definition AlbumListBox_populate ::
  "('a \<Rightarrow> 'o::linorder) \<Rightarrow> string \<Rightarrow> ('k, 'a) dict \<Rightarrow> 'a AbstractListItem list" where
  "AlbumListBox_populate album_key icon albums =
     map (\<lambda>album. AbstractListItem (dict_get albums album) icon)
       (sort_key (\<lambda>k. album_key (dict_get albums k)) (dict_keys albums))"

text \<open>
  For the worked examples, where a \<open>char\<close> stands for one character with a code point
  below 256: on such strings \<^verbatim>\<open>str.lower\<close> adds 32 to the code points of \<^verbatim>\<open>A\<close> to \<^verbatim>\<open>Z\<close>
  and of the upper-case letters from 192 to 222 (215, the multiplication sign, is not
  one), and keeps every other character.
\<close>

definition latin1_lower_char :: "char \<Rightarrow> char" where
  "latin1_lower_char c =
     (let n = (of_char c :: nat)
      in if (65 \<le> n \<and> n \<le> 90) \<or> (192 \<le> n \<and> n \<le> 214) \<or> (216 \<le> n \<and> n \<le> 222)
         then char_of (n + 32) else c)"

definition latin1_lower :: "string \<Rightarrow> string" where
  "latin1_lower x = map latin1_lower_char x"

text \<open>Three tracks and a list box on the library page, for the worked examples.\<close>

definition example_tracks :: "nat \<Rightarrow> Track" where
  "example_tracks t =
     \<lparr>Track_id = 100 + t,
      Track_title = (if t = 0 then ''Alpha'' else if t = 1 then ''Beta'' else ''Coda''),
      Track_artist = ''X'',
      Track_rating = 0,
      Track_explicit_rating = 0\<rparr>"

definition example_box :: "string \<Rightarrow> sys" where
  "example_box slug =
     SongListBox_init example_tracks (\<lambda>n. ''*'') (\<lambda>n. ''-'') latin1_lower slug False None"

definition example_populated :: sys where
  "example_populated = projr (populate (example_box ''library'') [0, 1, 2])"

definition example_filtered :: sys where
  "example_filtered = projr (perform_filtering (start_filtering example_populated) ''c'')"



text \<open>Four albums, two of them with the same sort key.\<close>

definition example_albums :: "(string, nat \<times> string) dict" where
  "example_albums =
     \<lparr>dict_keys = [''k1'', ''k2'', ''k3'', ''k4''],
      dict_get = (\<lambda>k. if k = ''k1'' then (3, ''Zoo'') else if k = ''k2'' then (1, ''Abba'')
                       else if k = ''k3'' then (3, ''Yes'') else (2, ''Moon''))\<rparr>"

section \<open>Properties of the song list item and of the popup callbacks\<close>

text \<open>
  C10: \<^verbatim>\<open>is_currently_played\<close> holds exactly when the item's state is loading, playing
  or paused; so \<^verbatim>\<open>unappend\<close> emits no \<^verbatim>\<open>unappend-requested\<close> signal in each of these
  three states, and emits it (which makes the list box call the player's
  \<^verbatim>\<open>remove_from_queue\<close>) in the idle state.
\<close>

theorem is_currently_played_states:
  "(is_currently_played it \<longleftrightarrow>
      state it = loading \<or> state it = playing \<or> state it = paused) \<and>
   unappend it =
     (if state it = loading \<or> state it = playing \<or> state it = paused then []
      else [Sig_unappend_requested]) \<and>
   emit_signals s r (unappend (items s r)) =
     (if state (items s r) = loading \<or> state (items s r) = playing \<or>
         state (items s r) = paused then s
      else emit_call s (Player_remove_from_queue (track (items s r))))"
  by (simp add: is_currently_played_def unappend_def emit_signals_def
      item_unappend_requested_def)

theorem is_currently_played_states_witness:
  "is_currently_played (items (set_state example_populated 0 loading) 0) \<and>
   unappend (items (set_state example_populated 0 loading) 0) = [] \<and>
   unappend (items (set_state example_populated 0 paused) 0) = [] \<and>
   unappend (items (set_state example_populated 0 idle) 0) = [Sig_unappend_requested]"
  using is_currently_played_states [of "items (set_state example_populated 0 loading) 0"]
    is_currently_played_states [of "items (set_state example_populated 0 paused) 0"]
    is_currently_played_states [of "items (set_state example_populated 0 idle) 0"]
  by (simp add: set_state_def)




text \<open>
  C7: each completion callback of add-to-library and remove-from-library notifies
  exactly once: with the error's text when there is an error, with the fallback text
  when there is none and the result is falsy, with the success text otherwise.
\<close>

theorem library_completion_notifies_once:
  "length (on_add_to_my_library result err) = 1 \<and>
   length (on_remove_from_my_library result err) = 1 \<and>
   (\<forall>e. err = Some e \<longrightarrow>
      on_add_to_my_library result err = [''Error while adding track to my library: '' @ e] \<and>
      on_remove_from_my_library result err =
        [''Error while removing track from my library: '' @ e]) \<and>
   (err = None \<and> \<not> result \<longrightarrow>
      on_add_to_my_library result err =
        [''Error while adding track to my library: reason is unknown :(''] \<and>
      on_remove_from_my_library result err =
        [''Error while removing track from my library: reason is unknown :('']) \<and>
   (err = None \<and> result \<longrightarrow>
      on_add_to_my_library result err = [''Track added to library!''] \<and>
      on_remove_from_my_library result err = [''Track removed from library!''])"
  by (simp add: on_add_to_my_library_def on_remove_from_my_library_def)

theorem library_completion_notifies_once_witness:
  "on_add_to_my_library False (Some ''timeout'') =
     [''Error while adding track to my library: timeout''] \<and>
   on_remove_from_my_library False None =
     [''Error while removing track from my library: reason is unknown :(''] \<and>
   on_add_to_my_library True None = [''Track added to library!'']"
  using library_completion_notifies_once [of False "Some ''timeout''"]
    library_completion_notifies_once [of False None]
    library_completion_notifies_once [of True None]
  by simp

section \<open>Item activation\<close>

text \<open>
  C1: activating an item makes exactly one call to the player, chosen in this order:
  play/pause when the item is loading, playing or paused; else a jump to the item's
  track on the queue page; else an append of the item's track when the page has append
  semantics or the list is filtering; else a load of the list's whole track sequence
  \<^verbatim>\<open>self.tracks\<close> from the item's index.
\<close>

theorem item_activated_one_action:
  "calls (item_activated s r) = calls s @
     [if state (items s r) = loading \<or> state (items s r) = playing \<or> state (items s r) = paused
        then Player_play_pause
      else if page_slug s = ''queue'' then Player_goto_track (track (items s r))
      else if page_append s \<or> filtering s then Player_append_to_queue (track (items s r))
      else Player_load_queue (tracks s) (index (items s r))]"
  by (simp add: item_activated_def Let_def is_currently_played_def emit_call_def
      item_append_requested_def)

theorem item_activated_one_action_witness:
  "calls (item_activated example_populated 2) =
     calls example_populated @ [Player_load_queue [0, 1, 2] 2] \<and>
   calls (item_activated (set_state example_populated 2 paused) 2) =
     calls example_populated @ [Player_play_pause] \<and>
   calls (item_activated (example_populated\<lparr>page_slug := ''queue''\<rparr>) 2) =
     calls example_populated @ [Player_goto_track 2] \<and>
   calls (item_activated (example_populated\<lparr>filtering := True\<rparr>) 2) =
     calls example_populated @ [Player_append_to_queue 2]"
proof -
  have a: "state (items example_populated 2) = idle" "page_slug example_populated = ''library''"
    "\<not> page_append example_populated" "\<not> filtering example_populated"
    "tracks example_populated = [0, 1, 2]" "index (items example_populated 2) = 2"
    "track (items example_populated 2) = 2"
    unfolding example_populated_def by code_simp+
  show ?thesis
    using item_activated_one_action [of example_populated 2]
      item_activated_one_action [of "set_state example_populated 2 paused" 2]
      item_activated_one_action [of "example_populated\<lparr>page_slug := ''queue''\<rparr>" 2]
      item_activated_one_action [of "example_populated\<lparr>filtering := True\<rparr>" 2]
    by (simp add: a set_state_def)
qed

section \<open>Filtering\<close>









text \<open>
  C4, as amended: on a list that is not already in filtering mode, \<^verbatim>\<open>end_filtering\<close>
  right after \<^verbatim>\<open>start_filtering\<close> restores the collection that was visible before
  (the same item objects in the same order, themselves unchanged) and leaves the
  filtering flag false.
\<close>

theorem end_filtering_after_start_restores:
  "\<not> filtering s \<Longrightarrow>
     walker (end_filtering (start_filtering s)) = walker s \<and>
     items (end_filtering (start_filtering s)) = items s \<and>
     \<not> filtering (end_filtering (start_filtering s))"
  by (simp add: start_filtering_def end_filtering_def emit_call_def filter_prefix_def)

theorem end_filtering_after_start_restores_witness:
  "\<not> filtering example_populated \<and>
   walker (end_filtering (start_filtering example_populated)) =
     [SongItem 0, SongItem 1, SongItem 2] \<and>
   \<not> filtering (end_filtering (start_filtering example_populated))"
proof -
  have h: "\<not> filtering example_populated"
    unfolding example_populated_def by code_simp
  have w: "walker example_populated = [SongItem 0, SongItem 1, SongItem 2]"
    unfolding example_populated_def by code_simp
  show ?thesis using h end_filtering_after_start_restores [OF h] unfolding w by blast
qed

text \<open>
  C4 as stated, for every list, fails where \<^verbatim>\<open>start_filtering\<close> is the guarded no-op:
  on a list already filtered down to one item, the pair brings back the three items of
  the snapshot instead of the one that was visible; and where the shared flag is set
  while this list's filter box is empty, both calls return at their guards and
  the flag stays true.
\<close>

theorem end_filtering_after_start_counterexample:
  "walker example_filtered = [SongItem 2] \<and>
   walker (end_filtering (start_filtering example_filtered)) =
     [SongItem 0, SongItem 1, SongItem 2] \<and>
   filtering (end_filtering (start_filtering (example_populated\<lparr>filtering := True\<rparr>)))"
  unfolding example_filtered_def example_populated_def by code_simp

text \<open>
  C8, as amended: \<^verbatim>\<open>start_filtering\<close>, on a list not already filtering, sets
  \<^verbatim>\<open>filter_query\<close> to the empty string; \<^verbatim>\<open>end_filtering\<close> does not clear it: it leaves
  \<^verbatim>\<open>filter_query\<close> as it is.
\<close>

theorem filter_query_cleared_on_start_only:
  "(\<not> filtering s \<longrightarrow> filter_query (start_filtering s) = []) \<and>
   filter_query (end_filtering s) = filter_query s"
  by (simp add: start_filtering_def end_filtering_def emit_call_def)

theorem filter_query_cleared_on_start_only_witness:
  "\<not> filtering (example_populated\<lparr>filter_query := ''old''\<rparr>) \<and>
   filter_query (start_filtering (example_populated\<lparr>filter_query := ''old''\<rparr>)) = [] \<and>
   filter_query (end_filtering example_filtered) = filter_query example_filtered"
proof -
  have h: "\<not> filtering (example_populated\<lparr>filter_query := ''old''\<rparr>)"
    unfolding example_populated_def by code_simp
  show ?thesis
    using h filter_query_cleared_on_start_only [of "example_populated\<lparr>filter_query := ''old''\<rparr>"]
      filter_query_cleared_on_start_only [of example_filtered]
    by blast
qed

text \<open>
  C8 as stated fails for \<^verbatim>\<open>end_filtering\<close>: after the query \<^verbatim>\<open>c\<close> was typed,
  \<^verbatim>\<open>end_filtering\<close> leaves filtering mode with the query still \<^verbatim>\<open>c\<close>.
\<close>

theorem filter_query_end_filtering_counterexample:
  "filtering example_filtered \<and>
   \<not> filtering (end_filtering example_filtered) \<and>
   filter_query (end_filtering example_filtered) = ''c''"
  unfolding example_filtered_def example_populated_def by code_simp

section \<open>Populating the song list\<close>

text \<open>
  The loop of \<^verbatim>\<open>tracks_to_songlist\<close> allocates one item per track at consecutive
  addresses and leaves the objects allocated before as they are.
\<close>

lemma tracks_to_songlist_loop_result:
  "tracks_to_songlist_loop s i ts its ci = (s', its', ci') \<Longrightarrow>
     its' = its @ map SongItem [next_ref s..<next_ref s + length ts] \<and>
     s' = s\<lparr>items := items s', next_ref := next_ref s + length ts\<rparr> \<and>
     (\<forall>j < length ts. track (items s' (next_ref s + j)) = ts ! j) \<and>
     (\<forall>r < next_ref s. items s' r = items s r)"
proof (induction ts arbitrary: s i its ci)
  case Nil
  then show ?case by auto
next
  case (Cons t ts)
  define r where "r = next_ref s"
  define s1 where "s1 = s\<lparr>items := (items s)(r := new_SongListItem s t), next_ref := Suc r\<rparr>"
  define hit where "hit = (case current_track s1 of None \<Rightarrow> False | Some c \<Rightarrow> Track_eq c t)"
  define s2 where "s2 = (if hit then set_state s1 r loading else s1)"
  define ci2 where "ci2 = (if hit \<and> ci = None then Some i else ci)"
  have step: "tracks_to_songlist_loop s2 (Suc i) ts (its @ [SongItem r]) ci2 = (s', its', ci')"
    using Cons.prems
    unfolding tracks_to_songlist_loop.simps Let_def s2_def hit_def ci2_def s1_def r_def .
  have n2: "next_ref s2 = Suc r" by (simp add: s2_def s1_def set_state_def)
  have t2: "track (items s2 r) = t"
    by (simp add: s2_def s1_def set_state_def new_SongListItem_def)
  have old2: "q < r \<Longrightarrow> items s2 q = items s q" for q
    by (simp add: s2_def s1_def set_state_def)
  have fr2: "s2 = s\<lparr>items := items s2, next_ref := Suc r\<rparr>"
    by (simp add: s2_def s1_def set_state_def)
  from Cons.IH [OF step] have ih:
    "its' = (its @ [SongItem r]) @ map SongItem [Suc r..<Suc r + length ts]"
    "s' = s2\<lparr>items := items s', next_ref := Suc r + length ts\<rparr>"
    "\<forall>j < length ts. track (items s' (Suc r + j)) = ts ! j"
    "\<forall>q < Suc r. items s' q = items s2 q"
    unfolding n2 by blast+
  have u: "[next_ref s..<next_ref s + length (t # ts)] = r # [Suc r..<Suc r + length ts]"
    unfolding r_def by (subst upt_rec) simp
  have a: "its' = its @ map SongItem [next_ref s..<next_ref s + length (t # ts)]"
    unfolding u using ih(1) by simp
  have b: "s' = s\<lparr>items := items s', next_ref := next_ref s + length (t # ts)\<rparr>"
    by (subst ih(2), subst fr2) (simp add: r_def)
  have c: "track (items s' (next_ref s + j)) = (t # ts) ! j" if "j < length (t # ts)" for j
  proof (cases j)
    case 0
    then show ?thesis using ih(4) t2 by (simp add: r_def)
  next
    case (Suc k)
    then show ?thesis using ih(3) that by (simp add: r_def)
  qed
  have d: "items s' q = items s q" if "q < next_ref s" for q
    using ih(4) old2 that by (simp add: r_def)
  show ?case using a b c d by blast
qed

text \<open>On distinct items, \<^verbatim>\<open>update_indexes\<close> returns and numbers them from the start index.\<close>

lemma update_indexes_loop_distinct:
  "distinct rs \<Longrightarrow>
   \<exists>s'. update_indexes_loop s i (map SongItem rs) = Inr s' \<and> s' = s\<lparr>items := items s'\<rparr> \<and>
        (\<forall>j < length rs. items s' (rs ! j) = (items s (rs ! j))\<lparr>index := i + j\<rparr>) \<and>
        (\<forall>r. r \<notin> set rs \<longrightarrow> items s' r = items s r)"
proof (induction rs arbitrary: s i)
  case Nil
  then show ?case by simp
next
  case (Cons r rs)
  then have dr: "distinct rs" and nr: "r \<notin> set rs" by simp_all
  from Cons.IH [OF dr, of "set_index s r i" "Suc i"]
  obtain s' where s': "update_indexes_loop (set_index s r i) (Suc i) (map SongItem rs) = Inr s'"
    "s' = (set_index s r i)\<lparr>items := items s'\<rparr>"
    "\<forall>j < length rs. items s' (rs ! j) = (items (set_index s r i) (rs ! j))\<lparr>index := Suc i + j\<rparr>"
    "\<forall>q. q \<notin> set rs \<longrightarrow> items s' q = items (set_index s r i) q"
    by blast
  have a: "s' = s\<lparr>items := items s'\<rparr>"
    by (subst s'(2)) (simp add: set_index_def)
  have b: "items s' ((r # rs) ! j) = (items s ((r # rs) ! j))\<lparr>index := i + j\<rparr>"
    if "j < length (r # rs)" for j
  proof (cases j)
    case 0
    then show ?thesis using s'(4) nr by (simp add: set_index_def)
  next
    case (Suc k)
    with that have k: "k < length rs" by simp
    then have "rs ! k \<noteq> r" using nr by (metis nth_mem)
    then show ?thesis using s'(3) k Suc by (simp add: set_index_def)
  qed
  have c: "items s' q = items s q" if "q \<notin> set (r # rs)" for q
    using s'(4) that by (simp add: set_index_def)
  show ?case using s'(1) a b c by auto
qed

text \<open>
  C2: for every track sequence \<open>ts\<close>, \<^verbatim>\<open>populate(ts)\<close> returns, and afterwards the walker
  holds one song-list item per element of \<open>ts\<close> (pairwise distinct objects), in the order
  of \<open>ts\<close>: the item at position \<open>i\<close> wraps \<open>ts ! i\<close> and has index \<open>i\<close>.
\<close>

theorem populate_one_item_per_track:
  "\<exists>s'. populate s ts = Inr s' \<and>
        tracks s' = ts \<and>
        length (walker s') = length ts \<and>
        distinct (walker s') \<and>
        (\<forall>i < length ts. \<exists>r. walker s' ! i = SongItem r \<and>
             track (items s' r) = ts ! i \<and> index (items s' r) = i)"
proof -
  define s1 where "s1 = s\<lparr>tracks := ts\<rparr>"
  obtain s2 its ci where tl: "tracks_to_songlist_loop s1 0 ts [] None = (s2, its, ci)"
    by (metis prod_cases3)
  define rs where "rs = [next_ref s1..<next_ref s1 + length ts]"
  from tracks_to_songlist_loop_result [OF tl] have r2:
    "its = map SongItem rs"
    "s2 = s1\<lparr>items := items s2, next_ref := next_ref s1 + length ts\<rparr>"
    "\<forall>j < length ts. track (items s2 (next_ref s1 + j)) = ts ! j"
    unfolding rs_def by simp_all
  define s3 where "s3 = s2\<lparr>walker := its\<rparr>"
  have "distinct rs" by (simp add: rs_def)
  from update_indexes_loop_distinct [OF this, of s3 0]
  obtain s4 where s4: "update_indexes_loop s3 0 (map SongItem rs) = Inr s4"
    "s4 = s3\<lparr>items := items s4\<rparr>"
    "\<forall>j < length rs. items s4 (rs ! j) = (items s3 (rs ! j))\<lparr>index := j\<rparr>"
    by auto
  have ui: "update_indexes s3 = Inr s4"
    using s4(1) by (simp add: update_indexes_def s3_def r2(1))
  have w4: "walker s4 = map SongItem rs"
    by (subst s4(2)) (simp add: s3_def r2(1))
  have t4: "tracks s4 = ts"
    by (subst s4(2), simp add: s3_def, subst r2(2), simp add: s1_def)
  define s5 where "s5 = (case ci of Some c \<Rightarrow> emit_call s4 (Walker_set_focus c)
       | None \<Rightarrow> if length (walker s4) \<ge> 1 then emit_call s4 (Walker_set_focus 0) else s4)"
  have ts1: "tracks s1 = ts" by (simp add: s1_def)
  have pop: "populate s ts = Inr s5"
    unfolding populate_def Let_def tracks_to_songlist_def s1_def [symmetric] ts1 tl
    using ui by (simp add: s3_def [symmetric] s5_def split: option.splits)
  have f5: "walker s5 = walker s4" "items s5 = items s4" "tracks s5 = tracks s4"
    by (simp_all add: s5_def emit_call_def split: option.splits)
  have len: "length rs = length ts" by (simp add: rs_def)
  have nth: "rs ! i = next_ref s1 + i" if "i < length ts" for i
    using that by (simp add: rs_def)
  have it: "\<exists>r. walker s5 ! i = SongItem r \<and> track (items s5 r) = ts ! i \<and>
      index (items s5 r) = i" if "i < length ts" for i
  proof -
    have "items s4 (rs ! i) = (items s3 (rs ! i))\<lparr>index := i\<rparr>"
      using s4(3) that len by simp
    moreover have "track (items s3 (rs ! i)) = ts ! i"
      using r2(3) that by (simp add: s3_def nth)
    ultimately have "track (items s4 (rs ! i)) = ts ! i \<and> index (items s4 (rs ! i)) = i"
      by simp
    moreover have "walker s5 ! i = SongItem (rs ! i)"
      using that len by (simp add: f5 w4)
    ultimately show ?thesis by (simp add: f5)
  qed
  have "distinct (walker s5)"
    by (simp add: f5 w4 distinct_map rs_def inj_on_def)
  then show ?thesis
    using pop it by (auto simp: f5 w4 t4 len)
qed

theorem populate_one_item_per_track_witness:
  "populate (example_box ''library'') [0, 1, 2] = Inr example_populated \<and>
   walker example_populated = [SongItem 0, SongItem 1, SongItem 2] \<and>
   map (\<lambda>r. track (items example_populated r)) [0, 1, 2] = [0, 1, 2] \<and>
   map (\<lambda>r. index (items example_populated r)) [0, 1, 2] = [0, 1, 2]"
proof -
  from populate_one_item_per_track [of "example_box ''library''" "[0, 1, 2]"]
  obtain s' where "populate (example_box ''library'') [0, 1, 2] = Inr s'" by blast
  then have p: "populate (example_box ''library'') [0, 1, 2] = Inr example_populated"
    by (simp add: example_populated_def)
  have "walker example_populated = [SongItem 0, SongItem 1, SongItem 2]"
    "map (\<lambda>r. track (items example_populated r)) [0, 1, 2] = [0, 1, 2]"
    "map (\<lambda>r. index (items example_populated r)) [0, 1, 2] = [0, 1, 2]"
    unfolding example_populated_def by code_simp+
  with p show ?thesis by blast
qed

section \<open>The album list\<close>

text \<open>
  C9: \<^verbatim>\<open>AlbumListBox.populate\<close> makes one item per album of the mapping, ordered by the
  albums' sort key; albums with the same sort key keep the order of the mapping (the
  sort is stable).
\<close>

theorem album_items_sorted_by_key:
  "length (AlbumListBox_populate album_key icon albums) = length (dict_keys albums) \<and>
   sorted (map (\<lambda>it. album_key (item_album it)) (AlbumListBox_populate album_key icon albums)) \<and>
   mset (map item_album (AlbumListBox_populate album_key icon albums)) =
     mset (map (dict_get albums) (dict_keys albums)) \<and>
   map item_album
     (filter (\<lambda>it. album_key (item_album it) = v) (AlbumListBox_populate album_key icon albums)) =
     map (dict_get albums) (filter (\<lambda>k. album_key (dict_get albums k) = v) (dict_keys albums))"
proof -
  let ?f = "\<lambda>k. album_key (dict_get albums k)"
  let ?ks = "sort_key ?f (dict_keys albums)"
  have items: "AlbumListBox_populate album_key icon albums =
      map (\<lambda>album. AbstractListItem (dict_get albums album) icon) ?ks"
    by (simp add: AlbumListBox_populate_def)
  have a: "map (\<lambda>it. album_key (item_album it)) (AlbumListBox_populate album_key icon albums) =
      map ?f ?ks"
    by (simp add: items o_def)
  have b: "map item_album (AlbumListBox_populate album_key icon albums) =
      map (dict_get albums) ?ks"
    by (simp add: items o_def)
  have c: "mset (map (dict_get albums) ?ks) = mset (map (dict_get albums) (dict_keys albums))"
    by simp
  have d: "map item_album
     (filter (\<lambda>it. album_key (item_album it) = v) (AlbumListBox_populate album_key icon albums)) =
     map (dict_get albums) (filter (\<lambda>k. ?f k = v) ?ks)"
    by (simp add: items filter_map o_def)
  show ?thesis
    unfolding a b c d by (simp add: items sort_key_stable)
qed

theorem album_items_sorted_by_key_witness:
  "map item_album (AlbumListBox_populate fst ''#'' example_albums) =
     [(1, ''Abba''), (2, ''Moon''), (3, ''Zoo''), (3, ''Yes'')] \<and>
   sorted (map (\<lambda>it. fst (item_album it)) (AlbumListBox_populate fst ''#'' example_albums)) \<and>
   length (AlbumListBox_populate fst ''#'' example_albums) = 4"
proof -
  have e: "map item_album (AlbumListBox_populate fst ''#'' example_albums) =
     [(1, ''Abba''), (2, ''Moon''), (3, ''Zoo''), (3, ''Yes'')]"
    unfolding example_albums_def by code_simp
  have k: "length (dict_keys example_albums) = 4"
    by (simp add: example_albums_def)
  show ?thesis
    using e album_items_sorted_by_key [of fst "''#''" example_albums] unfolding k by blast
qed

section \<open>Track-changed notifications\<close>

text \<open>
  With \<^verbatim>\<open>==\<close> on tracks as identity, a track that is the same object has the same id
  object, so the test of the source is the spec's matching.
\<close>

lemma track_matches_represents: "track_matches s it t = represents s it t"
  by (auto simp: track_matches_def represents_def Track_eq_def)

lemma represents_cong:
  "page_slug s' = page_slug s \<Longrightarrow> track_heap s' = track_heap s \<Longrightarrow> track it' = track it \<Longrightarrow>
   represents s' it' t = represents s it t"
  by (simp add: represents_def)

text \<open>
  The loop of \<^verbatim>\<open>track_changed\<close>: it changes only the state of the items of the list and
  the calls made, and calls \<^verbatim>\<open>set_focus\<close> with the position of every matching item, in
  the order of \<^verbatim>\<open>enumerate\<close>.
\<close>

lemma track_changed_loop_result:
  "track_changed_loop s t i ws = s' \<Longrightarrow>
     s' = s\<lparr>items := items s', calls := calls s'\<rparr> \<and>
     (\<forall>r. items s' r =
        (if SongItem r \<in> set ws
         then (items s r)\<lparr>state := (if represents s (items s r) t then loading else idle)\<rparr>
         else items s r)) \<and>
     calls s' = calls s @
       map Walker_set_focus
         (map fst (filter (\<lambda>(k, w). represents_at s t w) (enumerate i ws)))"
proof (induction ws arbitrary: s i)
  case Nil
  then show ?case by auto
next
  case (Cons w ws)
  show ?case
  proof (cases w)
    case (Text x)
    with Cons.prems have "track_changed_loop s t (Suc i) ws = s'" by simp
    from Cons.IH [OF this] have ih:
      "s' = s\<lparr>items := items s', calls := calls s'\<rparr>"
      "\<forall>r. items s' r =
        (if SongItem r \<in> set ws
         then (items s r)\<lparr>state := (if represents s (items s r) t then loading else idle)\<rparr>
         else items s r)"
      "calls s' = calls s @ map Walker_set_focus
         (map fst (filter (\<lambda>(k, w). represents_at s t w) (enumerate (Suc i) ws)))"
      by blast+
    have "\<not> represents_at s t w" using Text by (simp add: represents_at_def)
    then have c: "calls s' = calls s @ map Walker_set_focus
         (map fst (filter (\<lambda>(k, w). represents_at s t w) (enumerate i (w # ws))))"
      using ih(3) by simp
    have b: "items s' q =
        (if SongItem q \<in> set (w # ws)
         then (items s q)\<lparr>state := (if represents s (items s q) t then loading else idle)\<rparr>
         else items s q)" for q
      using ih(2) [rule_format, of q] Text by simp
    show ?thesis using ih(1) b c by blast
  next
    case (SongItem r)
    define m where "m = represents s (items s r) t"
    define s1 where "s1 =
      (if m then emit_call (set_state s r loading) (Walker_set_focus i)
       else if state (items s r) \<noteq> idle then set_state s r idle else s)"
    have step: "track_changed_loop s1 t (Suc i) ws = s'"
      using Cons.prems SongItem
      by (simp add: s1_def m_def track_matches_represents split: if_splits)
    have i1: "items s1 = (items s)(r := (items s r)\<lparr>state := (if m then loading else idle)\<rparr>)"
      by (auto simp: s1_def set_state_def emit_call_def)
    have f1: "s1 = s\<lparr>items := items s1, calls := calls s1\<rparr>"
      by (simp add: s1_def set_state_def emit_call_def)
    have p1: "page_slug s1 = page_slug s" "track_heap s1 = track_heap s"
      by (simp_all add: s1_def set_state_def emit_call_def)
    have c1: "calls s1 = calls s @ (if m then [Walker_set_focus i] else [])"
      by (simp add: s1_def set_state_def emit_call_def)
    have tr: "track (items s1 q) = track (items s q)" for q
      by (simp add: i1)
    have rep: "represents s1 (items s1 q) t = represents s (items s q) t" for q
      by (rule represents_cong [OF p1 tr])
    have rep_at: "represents_at s1 t = represents_at s t"
      by (rule ext) (simp add: represents_at_def rep split: widget.splits)
    from Cons.IH [OF step] have ih:
      "s' = s1\<lparr>items := items s', calls := calls s'\<rparr>"
      "\<forall>q. items s' q =
        (if SongItem q \<in> set ws
         then (items s1 q)\<lparr>state := (if represents s1 (items s1 q) t then loading else idle)\<rparr>
         else items s1 q)"
      "calls s' = calls s1 @ map Walker_set_focus
         (map fst (filter (\<lambda>(k, w). represents_at s1 t w) (enumerate (Suc i) ws)))"
      by blast+
    have a: "s' = s\<lparr>items := items s', calls := calls s'\<rparr>"
      by (subst ih(1), subst f1) simp
    have b: "items s' q =
        (if SongItem q \<in> set (w # ws)
         then (items s q)\<lparr>state := (if represents s (items s q) t then loading else idle)\<rparr>
         else items s q)" for q
    proof (cases "q = r")
      case True
      then show ?thesis using ih(2) [rule_format, of q] SongItem
        unfolding rep by (simp add: i1 m_def)
    next
      case False
      then show ?thesis using ih(2) [rule_format, of q] SongItem
        unfolding rep by (simp add: i1)
    qed
    have "represents_at s t w = m" using SongItem by (simp add: represents_at_def m_def)
    then have c: "calls s' = calls s @ map Walker_set_focus
         (map fst (filter (\<lambda>(k, w). represents_at s t w) (enumerate i (w # ws))))"
      using ih(3) unfolding rep_at c1 by simp
    show ?thesis using a b c by blast
  qed
qed

text \<open>
  C5: when the list holds an item for the track \<open>T\<close>, \<^verbatim>\<open>track_changed(T)\<close> leaves the
  list's entries in place and sets the state of every item of the list to loading if it
  represents \<open>T\<close> (same track on the queue page, same track-id on every other page) and
  to idle otherwise, so every other item that was not idle is idle afterwards; nothing
  else of an item changes and items outside the list are untouched; \<^verbatim>\<open>set_focus\<close> is
  called with the positions of exactly the items that represent \<open>T\<close>, so the focus ends
  on such an item.
\<close>

theorem track_changed_marks_matching:
  assumes "SongItem r0 \<in> set (walker s)" and "track (items s r0) = T"
  shows "walker (track_changed s T) = walker s \<and>
    state (items (track_changed s T) r0) = loading \<and>
    (\<forall>r. SongItem r \<in> set (walker s) \<longrightarrow>
       items (track_changed s T) r =
         (items s r)\<lparr>state := (if represents s (items s r) T then loading else idle)\<rparr>) \<and>
    (\<forall>r. SongItem r \<notin> set (walker s) \<longrightarrow> items (track_changed s T) r = items s r) \<and>
    calls (track_changed s T) = calls s @
      map Walker_set_focus
        (map fst (filter (\<lambda>(k, w). represents_at s T w) (enumerate 0 (walker s)))) \<and>
    (\<exists>k < length (walker s). represents_at s T (walker s ! k) \<and>
       last (calls (track_changed s T)) = Walker_set_focus k)"
proof -
  define s' where "s' = track_changed s T"
  define hits where "hits = filter (\<lambda>(k, w). represents_at s T w) (enumerate 0 (walker s))"
  have "track_changed_loop s T 0 (walker s) = s'"
    by (simp add: s'_def track_changed_def)
  from track_changed_loop_result [OF this] have r:
    "s' = s\<lparr>items := items s', calls := calls s'\<rparr>"
    "\<forall>r. items s' r =
        (if SongItem r \<in> set (walker s)
         then (items s r)\<lparr>state := (if represents s (items s r) T then loading else idle)\<rparr>
         else items s r)"
    "calls s' = calls s @ map Walker_set_focus (map fst hits)"
    unfolding hits_def by blast+
  have w: "walker s' = walker s" by (subst r(1)) simp
  have rep0: "represents s (items s r0) T"
    using assms(2) by (simp add: represents_def)
  have l0: "state (items s' r0) = loading"
    using r(2) [rule_format, of r0] assms(1) rep0 by simp
  have a: "\<forall>r. SongItem r \<in> set (walker s) \<longrightarrow>
       items s' r = (items s r)\<lparr>state := (if represents s (items s r) T then loading else idle)\<rparr>"
    using r(2) by simp
  have b: "\<forall>r. SongItem r \<notin> set (walker s) \<longrightarrow> items s' r = items s r"
    using r(2) by simp
  from assms(1) obtain k0 where k0: "k0 < length (walker s)" "walker s ! k0 = SongItem r0"
    by (auto simp: in_set_conv_nth)
  then have "(k0, SongItem r0) \<in> set (enumerate 0 (walker s))"
    by (simp add: in_set_enumerate_eq)
  moreover have "represents_at s T (SongItem r0)"
    using rep0 by (simp add: represents_at_def)
  ultimately have "(k0, SongItem r0) \<in> set hits"
    by (simp add: hits_def)
  then have ne: "hits \<noteq> []" by auto
  then have "last hits \<in> set hits" by simp
  then have lh: "fst (last hits) < length (walker s)"
    "represents_at s T (walker s ! fst (last hits))"
    by (auto simp: hits_def in_set_enumerate_eq)
  have "last (calls s') = Walker_set_focus (fst (last hits))"
    using ne by (simp add: r(3) last_map)
  with lh have c: "\<exists>k < length (walker s). represents_at s T (walker s ! k) \<and>
       last (calls s') = Walker_set_focus k"
    by blast
  show ?thesis
    using w l0 a b r(3) c unfolding s'_def hits_def by blast
qed

theorem track_changed_marks_matching_witness:
  "SongItem 1 \<in> set (walker (set_state example_populated 0 playing)) \<and>
   track (items (set_state example_populated 0 playing) 1) = 1 \<and>
   walker (track_changed (set_state example_populated 0 playing) 1) =
     walker (set_state example_populated 0 playing) \<and>
   map (\<lambda>r. state (items (track_changed (set_state example_populated 0 playing) 1) r))
     [0, 1, 2] = [idle, loading, idle] \<and>
   calls (track_changed (set_state example_populated 0 playing) 1) =
     calls (set_state example_populated 0 playing) @ [Walker_set_focus 1]"
proof -
  have h1: "SongItem 1 \<in> set (walker (set_state example_populated 0 playing))"
    unfolding example_populated_def by code_simp
  have h2: "track (items (set_state example_populated 0 playing) 1) = 1"
    unfolding example_populated_def by code_simp
  have v: "map (\<lambda>r. state (items (track_changed (set_state example_populated 0 playing) 1) r))
     [0, 1, 2] = [idle, loading, idle]"
    "calls (track_changed (set_state example_populated 0 playing) 1) =
     calls (set_state example_populated 0 playing) @ [Walker_set_focus 1]"
    unfolding example_populated_def by code_simp+
  show ?thesis
    using h1 h2 v track_changed_marks_matching [OF h1 h2] by blast
qed

end
